theory Spec2Isabelle
  imports Main "HOL-Library.Word"
begin

section \<open>Python values used by htlc_implementation.py\<close>

text \<open>
  A Python \<open>str\<close> is a sequence of Unicode code points (numbers below \<open>0x110000\<close>);
  \<open>bytes\<close> is a sequence of 8-bit values; block heights are unbounded Python integers.
\<close>

type_synonym byte = "8 word"
type_synonym bytes = "byte list"
type_synonym str = "nat list"

datatype error = UnicodeEncodeError

text \<open>A source-code literal made of ASCII characters, as a \<open>str\<close>.\<close>

definition lit :: "string \<Rightarrow> str" where
  "lit s = map of_char s"

text \<open>
  \<open>s.encode()\<close>: UTF-8 with the \<open>strict\<close> error handler. A surrogate code point
  (\<open>0xD800\<close> to \<open>0xDFFF\<close>) raises \<open>UnicodeEncodeError\<close>. Numbers from \<open>0x110000\<close> on
  are no code points and occur in no \<open>str\<close>; the model rejects them as well.
\<close>

definition utf8 :: "nat \<Rightarrow> error + bytes" where
  "utf8 c =
     (if c < 0x80 then Inr [of_nat c]
      else if c < 0x800 then Inr [of_nat (0xC0 + c div 64), of_nat (0x80 + c mod 64)]
      else if 0xD800 \<le> c \<and> c \<le> 0xDFFF then Inl UnicodeEncodeError
      else if c < 0x10000 then
        Inr [of_nat (0xE0 + c div 4096), of_nat (0x80 + c div 64 mod 64),
             of_nat (0x80 + c mod 64)]
      else if c < 0x110000 then
        Inr [of_nat (0xF0 + c div 262144), of_nat (0x80 + c div 4096 mod 64),
             of_nat (0x80 + c div 64 mod 64), of_nat (0x80 + c mod 64)]
      else Inl UnicodeEncodeError)"

fun encode :: "str \<Rightarrow> error + bytes" where
  "encode [] = Inr []"
| "encode (c # cs) =
     (case utf8 c of
        Inl e \<Rightarrow> Inl e
      | Inr b \<Rightarrow> (case encode cs of Inl e \<Rightarrow> Inl e | Inr bs \<Rightarrow> Inr (b @ bs)))"

text \<open>\<open>str(b)\<close> of a bool and \<open>str(i)\<close> of an int, as the f-strings format them.\<close>

definition str_of_bool :: "bool \<Rightarrow> str" where
  "str_of_bool b = (if b then lit ''True'' else lit ''False'')"

fun digits :: "nat \<Rightarrow> str" where
  "digits n = (if n < 10 then [48 + n] else digits (n div 10) @ [48 + n mod 10])"

definition str_of_int :: "int \<Rightarrow> str" where
  "str_of_int i = (if i < 0 then 45 # digits (nat (- i)) else digits (nat i))"

section \<open>The hash primitives of hashlib\<close>

text \<open>
  \<open>hashlib.sha256\<close> and \<open>hashlib.new('ripemd160')\<close> are library code outside the
  repository. The model takes the two digest functions as a parameter and assumes nothing
  about them; \<open>hexdigest\<close>, the lower-case hexadecimal rendering of a digest, is written out.
  Both digests are taken to be available (a Python build without RIPEMD160 raises
  \<open>ValueError\<close> in \<open>hashlib.new\<close>), and \<open>print\<close> is taken to succeed.
\<close>

record hashlib =
  sha256 :: "bytes \<Rightarrow> bytes"
  ripemd160 :: "bytes \<Rightarrow> bytes"

definition hexdigit :: "nat \<Rightarrow> nat" where
  "hexdigit d = (if d < 10 then 48 + d else 87 + d)"

fun hexdigest :: "bytes \<Rightarrow> str" where
  "hexdigest [] = []"
| "hexdigest (b # bs) = hexdigit (unat b div 16) # hexdigit (unat b mod 16) # hexdigest bs"

section \<open>HTLCSimulator\<close>

record HTLCSimulator =
  secret :: str
  secret_hash :: str
  alice_pubkey :: str
  bob_pubkey :: str
  alice_pubkey_hash :: str
  bob_pubkey_hash :: str
  current_block :: int

text \<open>
  \<open>hash160(data)\<close>: SHA256 of the encoded text, then RIPEMD160 of that digest, returned
  as a hex string.
\<close>

definition hash160 :: "hashlib \<Rightarrow> str \<Rightarrow> error + str" where
  "hash160 hl data =
     (case encode data of
        Inl e \<Rightarrow> Inl e
      | Inr b \<Rightarrow>
          (let sha256_hash = sha256 hl b
           in Inr (hexdigest (ripemd160 hl sha256_hash))))"

text \<open>
  \<open>HTLCSimulator(secret, alice_pubkey, bob_pubkey)\<close>. The result is the new object, or
  the exception raised by the first failing \<open>encode\<close>, together with the lines the
  constructor prints (it has no \<open>print\<close> statement).
\<close>

definition HTLCSimulator_init ::
  "hashlib \<Rightarrow> str \<Rightarrow> str \<Rightarrow> str \<Rightarrow> (error + HTLCSimulator) \<times> str list" where
  "HTLCSimulator_init hl secret' alice_pubkey' bob_pubkey' =
     (case encode secret' of
        Inl e \<Rightarrow> (Inl e, [])
      | Inr sb \<Rightarrow>
          (case hash160 hl alice_pubkey' of
             Inl e \<Rightarrow> (Inl e, [])
           | Inr ah \<Rightarrow>
               (case hash160 hl bob_pubkey' of
                  Inl e \<Rightarrow> (Inl e, [])
                | Inr bh \<Rightarrow>
                    (Inr \<lparr> secret = secret',
                           secret_hash = hexdigest (sha256 hl sb),
                           alice_pubkey = alice_pubkey',
                           bob_pubkey = bob_pubkey',
                           alice_pubkey_hash = ah,
                           bob_pubkey_hash = bh,
                           current_block = 0 \<rparr>, []))))"

text \<open>
  What a call of a method leaves behind: the value returned (or the exception raised),
  the object afterwards, and the lines written by \<open>print\<close>, one entry per call of
  \<open>print\<close>, in order.
\<close>

record outcome =
  returned :: "error + bool"
  self_after :: HTLCSimulator
  printed :: "str list"

definition rule60 :: str where
  "rule60 = replicate 60 61"

definition validate_alice_claim ::
  "hashlib \<Rightarrow> HTLCSimulator \<Rightarrow> str \<Rightarrow> str \<Rightarrow> int \<Rightarrow> outcome" where
  "validate_alice_claim hl self provided_secret provided_pubkey block_height =
     (let out1 = [10 # rule60, lit ''VALIDATING ALICE'S CLAIM'', rule60]
      in case encode provided_secret of
           Inl e \<Rightarrow> \<lparr> returned = Inl e, self_after = self, printed = out1 \<rparr>
         | Inr pb \<Rightarrow>
             (let provided_hash = hexdigest (sha256 hl pb);
                  secret_valid = (provided_hash = secret_hash self);
                  out2 = out1 @
                    [lit ''Secret Hash Match: '' @ str_of_bool secret_valid,
                     lit ''  Expected: '' @ secret_hash self,
                     lit ''  Provided: '' @ provided_hash];
                  pubkey_valid = (provided_pubkey = alice_pubkey self)
              in case hash160 hl provided_pubkey of
                   Inl e \<Rightarrow> \<lparr> returned = Inl e, self_after = self, printed = out2 \<rparr>
                 | Inr ph \<Rightarrow>
                     (let pubkey_hash_valid = (ph = alice_pubkey_hash self);
                          out3 = out2 @
                            [10 # lit ''Public Key Match: '' @ str_of_bool pubkey_valid,
                             lit ''Public Key Hash Match: '' @ str_of_bool pubkey_hash_valid,
                             10 # lit ''Block Height: '' @ str_of_int block_height @
                               lit '' (no timeout restriction for Alice)''];
                          success = (secret_valid \<and> pubkey_hash_valid);
                          out4 = out3 @
                            [10 # (if success then 0x2713 # lit '' CLAIM SUCCESSFUL''
                                   else 0x2717 # lit '' CLAIM FAILED''),
                             rule60]
                      in \<lparr> returned = Inr success, self_after = self, printed = out4 \<rparr>)))"

definition validate_bob_refund ::
  "hashlib \<Rightarrow> HTLCSimulator \<Rightarrow> str \<Rightarrow> int \<Rightarrow> int \<Rightarrow> outcome" where
  "validate_bob_refund hl self provided_pubkey block_height timeout_blocks =
     (let out1 = [10 # rule60, lit ''VALIDATING BOB'S REFUND'', rule60];
          timeout_passed = (block_height \<ge> timeout_blocks);
          out2 = out1 @
            [lit ''Timeout Check: '' @ str_of_bool timeout_passed,
             lit ''  Current Block: '' @ str_of_int block_height,
             lit ''  Timeout Block: '' @ str_of_int timeout_blocks,
             lit ''  Status: '' @ (if timeout_passed then lit ''PASSED'' else lit ''NOT YET'')];
          pubkey_valid = (provided_pubkey = bob_pubkey self)
      in case hash160 hl provided_pubkey of
           Inl e \<Rightarrow> \<lparr> returned = Inl e, self_after = self, printed = out2 \<rparr>
         | Inr ph \<Rightarrow>
             (let pubkey_hash_valid = (ph = bob_pubkey_hash self);
                  out3 = out2 @
                    [10 # lit ''Public Key Match: '' @ str_of_bool pubkey_valid,
                     lit ''Public Key Hash Match: '' @ str_of_bool pubkey_hash_valid];
                  success = (timeout_passed \<and> pubkey_hash_valid);
                  out4 = out3 @
                    [10 # (if success then 0x2713 # lit '' REFUND SUCCESSFUL''
                           else 0x2717 # lit '' REFUND FAILED''),
                     rule60]
              in \<lparr> returned = Inr success, self_after = self, printed = out4 \<rparr>))"

section \<open>Stand-ins for evaluating the model\<close>

text \<open>
  The theorems below hold for every pair of digest functions. To run the model at a
  concrete input, \<open>demo_hashlib\<close> supplies two functions of the right digest lengths
  (32 and 20 bytes) that pad or cut their argument; \<open>demo_sim\<close> is the object that
  \<open>HTLCSimulator("s3", "alice", "bob")\<close> builds with them.
\<close>

definition demo_hashlib :: hashlib where
  "demo_hashlib =
     \<lparr> sha256 = (\<lambda>b. take 32 (b @ replicate 32 0)),
       ripemd160 = (\<lambda>b. take 20 (b @ replicate 20 0)) \<rparr>"

definition demo_sim :: HTLCSimulator where
  "demo_sim =
     \<lparr> secret = lit ''s3'',
       secret_hash = lit ''7333'' @ replicate 60 48,
       alice_pubkey = lit ''alice'',
       bob_pubkey = lit ''bob'',
       alice_pubkey_hash = lit ''616c696365'' @ replicate 30 48,
       bob_pubkey_hash = lit ''626f62'' @ replicate 34 48,
       current_block = 0 \<rparr>"

section \<open>Notions used to state the properties\<close>

text \<open>
  A \<open>str\<close> that \<open>encode\<close> accepts: every element is a code point and none is a surrogate.
\<close>

definition encodable :: "str \<Rightarrow> bool" where
  "encodable s = (\<forall>c\<in>set s. c < 0xD800 \<or> (0xDFFF < c \<and> c < 0x110000))"

text \<open>
  The digest function \<open>f\<close> does not collide on the encodings of the two texts: if both
  encode and their digests agree, the byte strings agree.
\<close>

definition no_collision :: "(bytes \<Rightarrow> bytes) \<Rightarrow> str \<Rightarrow> str \<Rightarrow> bool" where
  "no_collision f x y =
     (case (encode x, encode y) of
        (Inr u, Inr v) \<Rightarrow> f u = f v \<longrightarrow> u = v
      | _ \<Rightarrow> True)"

text \<open>
  The two commitment functions in the specification's words: \<open>H\<close> is the single-stage
  digest SHA256, \<open>H160(x) = RIPEMD160(SHA256(x))\<close> the two-stage one, both on bytes.
\<close>

definition H_spec :: "hashlib \<Rightarrow> bytes \<Rightarrow> bytes" where
  "H_spec hl x = sha256 hl x"

definition H160_spec :: "hashlib \<Rightarrow> bytes \<Rightarrow> bytes" where
  "H160_spec hl x = ripemd160 hl (sha256 hl x)"

section \<open>Encoding and hex rendering lose no information\<close>

lemma hexdigit_inj: "hexdigit a = hexdigit b \<Longrightarrow> a = b"
  by (auto simp: hexdigit_def split: if_splits)

lemma hexdigest_inj: "hexdigest x = hexdigest y \<Longrightarrow> x = y"
proof (induction x arbitrary: y)
  case Nil
  then show ?case by (cases y) simp_all
next
  case (Cons b bs)
  then obtain c cs where y: "y = c # cs" by (cases y) simp_all
  from Cons.prems y have d: "unat b div 16 = unat c div 16" and m: "unat b mod 16 = unat c mod 16"
    and r: "hexdigest bs = hexdigest cs"
    by (auto dest: hexdigit_inj)
  have "unat b = unat c"
    using d m by (metis div_mult_mod_eq)
  then have "b = c" by (rule word_unat_eq_iff [THEN iffD2])
  with Cons.IH [OF r] y show ?case by simp
qed

lemma unat_byte: "n < 256 \<Longrightarrow> unat (of_nat n :: byte) = n"
  by (simp only: unat_of_nat) simp

lemma utf8_units:
  assumes "utf8 c = Inr b"
  shows "map unat b =
     (if c < 0x80 then [c]
      else if c < 0x800 then [0xC0 + c div 64, 0x80 + c mod 64]
      else if c < 0x10000 then [0xE0 + c div 4096, 0x80 + c div 64 mod 64, 0x80 + c mod 64]
      else [0xF0 + c div 262144, 0x80 + c div 4096 mod 64, 0x80 + c div 64 mod 64,
            0x80 + c mod 64])"
    and "c < 0x110000"
proof -
  show "c < 0x110000" using assms by (simp add: utf8_def split: if_splits)
  have m: "\<And>k. unat (of_nat (0x80 + k mod 64) :: byte) = 0x80 + k mod 64"
    by (rule unat_byte) (simp add: less_le_trans [OF add_strict_left_mono [OF mod_less_divisor]])
  show "map unat b = (if c < 0x80 then [c]
      else if c < 0x800 then [0xC0 + c div 64, 0x80 + c mod 64]
      else if c < 0x10000 then [0xE0 + c div 4096, 0x80 + c div 64 mod 64, 0x80 + c mod 64]
      else [0xF0 + c div 262144, 0x80 + c div 4096 mod 64, 0x80 + c div 64 mod 64,
            0x80 + c mod 64])"
  proof -
    consider "c < 0x80" | "0x80 \<le> c" "c < 0x800" | "0x800 \<le> c" "c < 0x10000"
      | "0x10000 \<le> c" "c < 0x110000"
      using \<open>c < 0x110000\<close> by linarith
    then show ?thesis
    proof cases
      case 1
      then show ?thesis using assms by (auto simp: utf8_def unat_byte)
    next
      case 2
      then have "0xC0 + c div 64 < 256" by simp
      then have "unat (of_nat (0xC0 + c div 64) :: byte) = 0xC0 + c div 64"
        by (rule unat_byte)
      with 2 m[of c] show ?thesis using assms by (auto simp: utf8_def split: if_splits)
    next
      case 3
      then have "0xE0 + c div 4096 < 256" by simp
      then have "unat (of_nat (0xE0 + c div 4096) :: byte) = 0xE0 + c div 4096"
        by (rule unat_byte)
      with 3 m[of c] m[of "c div 64"] show ?thesis using assms
        by (auto simp: utf8_def split: if_splits)
    next
      case 4
      then have "0xF0 + c div 262144 < 256" by simp
      then have "unat (of_nat (0xF0 + c div 262144) :: byte) = 0xF0 + c div 262144"
        by (rule unat_byte)
      with 4 m[of c] m[of "c div 64"] m[of "c div 4096"] show ?thesis using assms
        by (auto simp: utf8_def split: if_splits)
    qed
  qed
qed


lemma digits64_1: "(a::nat) div 64 = b div 64 \<Longrightarrow> a mod 64 = b mod 64 \<Longrightarrow> a = b"
  by (metis div_mult_mod_eq)

lemma digits64_2:
  fixes a b :: nat
  assumes "a div 4096 = b div 4096" "a div 64 mod 64 = b div 64 mod 64" "a mod 64 = b mod 64"
  shows "a = b"
proof -
  have "a div 64 div 64 = b div 64 div 64"
    using assms(1) by (simp add: div_mult2_eq [symmetric])
  then have "a div 64 = b div 64" using assms(2) by (rule digits64_1)
  then show ?thesis using assms(3) by (rule digits64_1)
qed

lemma digits64_3:
  fixes a b :: nat
  assumes "a div 262144 = b div 262144" "a div 4096 mod 64 = b div 4096 mod 64"
    "a div 64 mod 64 = b div 64 mod 64" "a mod 64 = b mod 64"
  shows "a = b"
proof -
  have "a div 4096 div 64 = b div 4096 div 64"
    using assms(1) by (simp add: div_mult2_eq [symmetric])
  then have "a div 4096 = b div 4096" using assms(2) by (rule digits64_1)
  then show ?thesis using assms(3,4) by (rule digits64_2)
qed

lemma units_prefix:
  fixes c1 c2 :: nat
  assumes "c1 < 0x110000" "c2 < 0x110000"
    and "(if c1 < 0x80 then [c1]
      else if c1 < 0x800 then [0xC0 + c1 div 64, 0x80 + c1 mod 64]
      else if c1 < 0x10000 then [0xE0 + c1 div 4096, 0x80 + c1 div 64 mod 64, 0x80 + c1 mod 64]
      else [0xF0 + c1 div 262144, 0x80 + c1 div 4096 mod 64, 0x80 + c1 div 64 mod 64,
            0x80 + c1 mod 64]) @ r1
     = (if c2 < 0x80 then [c2]
      else if c2 < 0x800 then [0xC0 + c2 div 64, 0x80 + c2 mod 64]
      else if c2 < 0x10000 then [0xE0 + c2 div 4096, 0x80 + c2 div 64 mod 64, 0x80 + c2 mod 64]
      else [0xF0 + c2 div 262144, 0x80 + c2 div 4096 mod 64, 0x80 + c2 div 64 mod 64,
            0x80 + c2 mod 64]) @ r2"
  shows "c1 = c2"
  using assms by (auto split: if_splits intro: digits64_1 digits64_2 digits64_3)

lemma utf8_prefix:
  assumes "utf8 c1 = Inr b1" "utf8 c2 = Inr b2" "b1 @ r1 = b2 @ r2"
  shows "c1 = c2 \<and> r1 = r2"
proof -
  from assms(3) have "map unat b1 @ map unat r1 = map unat b2 @ map unat r2"
    by (metis map_append)
  then have "c1 = c2"
    unfolding utf8_units(1) [OF assms(1)] utf8_units(1) [OF assms(2)]
    by (rule units_prefix [OF utf8_units(2) [OF assms(1)] utf8_units(2) [OF assms(2)]])
  with assms show ?thesis by simp
qed

lemma utf8_nonempty: "utf8 c = Inr b \<Longrightarrow> b \<noteq> []"
  by (auto simp: utf8_def split: if_splits)

lemma encode_inj: "encode s1 = Inr b \<Longrightarrow> encode s2 = Inr b \<Longrightarrow> s1 = s2"
proof (induction s1 arbitrary: s2 b)
  case Nil
  then show ?case
    by (cases s2) (auto split: sum.splits dest: utf8_nonempty)
next
  case (Cons c1 cs1)
  from Cons.prems(1) obtain b1 bs1 where 1: "utf8 c1 = Inr b1" "encode cs1 = Inr bs1" "b = b1 @ bs1"
    by (auto split: sum.splits)
  with Cons.prems(2) obtain c2 cs2 where s2: "s2 = c2 # cs2"
    by (cases s2) (auto dest: utf8_nonempty)
  with Cons.prems(2) obtain b2 bs2 where 2: "utf8 c2 = Inr b2" "encode cs2 = Inr bs2" "b = b2 @ bs2"
    by (auto split: sum.splits)
  from 1 2 have "c1 = c2 \<and> bs1 = bs2" by (intro utf8_prefix [of c1 b1 c2 b2]) simp_all
  with Cons.IH [OF 1(2)] 2(2) s2 show ?case by simp
qed

lemma utf8_ok: "(\<exists>b. utf8 c = Inr b) = (c < 0xD800 \<or> (0xDFFF < c \<and> c < 0x110000))"
  by (auto simp: utf8_def)

lemma encode_ok: "(\<exists>b. encode s = Inr b) = encodable s"
proof (induction s)
  case Nil
  show ?case by (simp add: encodable_def)
next
  case (Cons c cs)
  have "(\<exists>b. encode (c # cs) = Inr b) = ((\<exists>b. utf8 c = Inr b) \<and> (\<exists>b. encode cs = Inr b))"
    by (auto split: sum.splits)
  also have "\<dots> = encodable (c # cs)"
    unfolding Cons.IH utf8_ok by (simp add: encodable_def)
  finally show ?case .
qed

lemma encode_error: "\<not> encodable s \<Longrightarrow> encode s = Inl UnicodeEncodeError"
  using encode_ok [of s] by (cases "encode s") (auto intro: error.exhaust)

lemma hash160_ok: "(\<exists>h. hash160 hl x = Inr h) = encodable x"
  unfolding encode_ok [symmetric] by (auto simp: hash160_def split: sum.splits)

lemma hash160_error: "\<not> encodable x \<Longrightarrow> hash160 hl x = Inl UnicodeEncodeError"
  by (simp add: hash160_def encode_error)

section \<open>What the constructor stores, what the methods return\<close>

lemma demo_init:
  "HTLCSimulator_init demo_hashlib (lit ''s3'') (lit ''alice'') (lit ''bob'') = (Inr demo_sim, [])"
  by code_simp

lemma init_fields:
  assumes "HTLCSimulator_init hl s a b = (Inr sim, out)"
  shows "\<exists>sb. encode s = Inr sb \<and> secret_hash sim = hexdigest (sha256 hl sb)"
    and "hash160 hl a = Inr (alice_pubkey_hash sim)"
    and "hash160 hl b = Inr (bob_pubkey_hash sim)"
    and "secret sim = s" and "alice_pubkey sim = a" and "bob_pubkey sim = b"
    and "current_block sim = 0" and "out = []"
  using assms by (auto simp: HTLCSimulator_init_def split: sum.splits)

lemma refund_returned:
  "hash160 hl p = Inr ph \<Longrightarrow>
   returned (validate_bob_refund hl self p h T) = Inr (T \<le> h \<and> ph = bob_pubkey_hash self)"
  by (simp add: validate_bob_refund_def Let_def)

lemma refund_returned_error:
  "hash160 hl p = Inl e \<Longrightarrow> returned (validate_bob_refund hl self p h T) = Inl e"
  by (simp add: validate_bob_refund_def Let_def)

lemma claim_returned:
  "encode s' = Inr pb \<Longrightarrow> hash160 hl p = Inr ph \<Longrightarrow>
   returned (validate_alice_claim hl self s' p h) =
     Inr (hexdigest (sha256 hl pb) = secret_hash self \<and> ph = alice_pubkey_hash self)"
  by (simp add: validate_alice_claim_def Let_def)

lemma claim_returned_error:
  "encode s' = Inl e \<or> (\<exists>pb. encode s' = Inr pb \<and> hash160 hl p = Inl e) \<Longrightarrow>
   returned (validate_alice_claim hl self s' p h) = Inl e"
  by (auto simp add: validate_alice_claim_def Let_def)

lemma refund_reads:
  "bob_pubkey self' = bob_pubkey self \<Longrightarrow> bob_pubkey_hash self' = bob_pubkey_hash self \<Longrightarrow>
   returned (validate_bob_refund hl self' p h T) = returned (validate_bob_refund hl self p h T)
   \<and> printed (validate_bob_refund hl self' p h T) = printed (validate_bob_refund hl self p h T)"
  by (simp add: validate_bob_refund_def Let_def split: sum.splits)

section \<open>The refund path\<close>

text \<open>
  C2. For a simulator built from any secret and keys and any timeout height \<open>T\<close>, the
  refund check with the refund key given at construction returns \<open>False\<close> at height
  \<open>T - 1\<close>, \<open>True\<close> at height \<open>T\<close> itself, and \<open>True\<close> at every height \<open>T + k\<close> with
  \<open>k \<ge> 0\<close>. (In the source the timeout is an argument of \<open>validate_bob_refund\<close>.)
\<close>

theorem refund_timeout_boundary:
  assumes "HTLCSimulator_init hl s a b = (Inr sim, out)"
  shows "returned (validate_bob_refund hl sim b (T - 1) T) = Inr False
       \<and> returned (validate_bob_refund hl sim b T T) = Inr True
       \<and> (\<forall>k\<ge>0. returned (validate_bob_refund hl sim b (T + k) T) = Inr True)"
  using init_fields(3)[OF assms] by (simp add: refund_returned)

theorem refund_timeout_boundary_witness:
  "HTLCSimulator_init demo_hashlib (lit ''s3'') (lit ''alice'') (lit ''bob'') = (Inr demo_sim, [])
   \<and> returned (validate_bob_refund demo_hashlib demo_sim (lit ''bob'') 20 21) = Inr False
   \<and> returned (validate_bob_refund demo_hashlib demo_sim (lit ''bob'') 21 21) = Inr True
   \<and> returned (validate_bob_refund demo_hashlib demo_sim (lit ''bob'') 25 21) = Inr True"
proof -
  have h: "HTLCSimulator_init demo_hashlib (lit ''s3'') (lit ''alice'') (lit ''bob'')
           = (Inr demo_sim, [])"
    by code_simp
  have "(4::int) \<ge> 0" by simp
  with refund_timeout_boundary [OF h, of 21] h show ?thesis by fastforce
qed

section \<open>The claim path\<close>

lemma no_collisionD:
  "no_collision f x y \<Longrightarrow> encode x = Inr u \<Longrightarrow> encode y = Inr v \<Longrightarrow> f u = f v \<Longrightarrow> x = y"
  by (auto simp: no_collision_def dest: encode_inj)

lemma hash160_eq_iff:
  assumes "encode x = Inr u" "encode y = Inr v"
  shows "(hash160 hl x = hash160 hl y) = (ripemd160 hl (sha256 hl u) = ripemd160 hl (sha256 hl v))"
  using assms by (auto simp: hash160_def dest: hexdigest_inj)

text \<open>
  C1. For a simulator built from \<open>(secret, alice_pubkey, bob_pubkey)\<close> and any candidate
  secret and key, \<open>validate_alice_claim\<close> returns \<open>True\<close> exactly when the candidate secret
  is the secret given at construction and the candidate key is Alice's key given at
  construction, provided SHA256 does not collide on the two secrets and HASH160 does not
  collide on the two keys; and the value returned is the same for every block height.
\<close>

theorem claim_correctness:
  assumes "HTLCSimulator_init hl s a b = (Inr sim, out)"
    and "no_collision (sha256 hl) s' s"
    and "no_collision (\<lambda>x. ripemd160 hl (sha256 hl x)) p' a"
  shows "(returned (validate_alice_claim hl sim s' p' h) = Inr True) = (s' = s \<and> p' = a)
       \<and> returned (validate_alice_claim hl sim s' p' h') = returned (validate_alice_claim hl sim s' p' h)"
proof -
  from init_fields(1) [OF assms(1)] obtain sb
    where sb: "encode s = Inr sb" "secret_hash sim = hexdigest (sha256 hl sb)" by blast
  note ah = init_fields(2) [OF assms(1)]
  then obtain ab where ab: "encode a = Inr ab"
    by (auto simp: hash160_def split: sum.splits)
  have indep: "returned (validate_alice_claim hl sim s' p' h')
             = returned (validate_alice_claim hl sim s' p' h)"
    by (simp add: validate_alice_claim_def Let_def split: sum.splits)
  have "(returned (validate_alice_claim hl sim s' p' h) = Inr True) = (s' = s \<and> p' = a)"
  proof (cases "encode s'")
    case (Inl e)
    then have "returned (validate_alice_claim hl sim s' p' h) = Inl e"
      by (simp add: claim_returned_error)
    moreover from Inl sb have "s' \<noteq> s" by auto
    ultimately show ?thesis by simp
  next
    case (Inr pb)
    show ?thesis
    proof (cases "hash160 hl p'")
      case (Inl e)
      with Inr have "returned (validate_alice_claim hl sim s' p' h) = Inl e"
        by (simp add: claim_returned_error)
      moreover from Inl ah have "p' \<noteq> a" by auto
      ultimately show ?thesis by simp
    next
      case ph: (Inr ph)
      then obtain pkb where pkb: "encode p' = Inr pkb"
        by (auto simp: hash160_def split: sum.splits)
      have A: "(hexdigest (sha256 hl pb) = secret_hash sim) = (s' = s)"
      proof
        assume "hexdigest (sha256 hl pb) = secret_hash sim"
        then have "sha256 hl pb = sha256 hl sb" using sb(2) by (auto dest: hexdigest_inj)
        with assms(2) Inr sb(1) show "s' = s" by (rule no_collisionD)
      next
        assume "s' = s"
        with Inr sb show "hexdigest (sha256 hl pb) = secret_hash sim" by simp
      qed
      have B: "(ph = alice_pubkey_hash sim) = (p' = a)"
      proof
        assume "ph = alice_pubkey_hash sim"
        with ph ah have "hash160 hl p' = hash160 hl a" by simp
        then have "ripemd160 hl (sha256 hl pkb) = ripemd160 hl (sha256 hl ab)"
          by (simp add: hash160_eq_iff [OF pkb ab])
        with assms(3) pkb ab show "p' = a" by (rule no_collisionD)
      next
        assume "p' = a"
        with ph ah show "ph = alice_pubkey_hash sim" by simp
      qed
      show ?thesis by (simp add: claim_returned [OF Inr ph] A B)
    qed
  qed
  with indep show ?thesis by simp
qed

theorem claim_correctness_witness:
  "HTLCSimulator_init demo_hashlib (lit ''s3'') (lit ''alice'') (lit ''bob'') = (Inr demo_sim, [])
   \<and> no_collision (sha256 demo_hashlib) (lit ''s3'') (lit ''s3'')
   \<and> no_collision (\<lambda>x. ripemd160 demo_hashlib (sha256 demo_hashlib x)) (lit ''alice'') (lit ''alice'')
   \<and> returned (validate_alice_claim demo_hashlib demo_sim (lit ''s3'') (lit ''alice'') 10) = Inr True
   \<and> returned (validate_alice_claim demo_hashlib demo_sim (lit ''s3'') (lit ''alice'') 25)
     = returned (validate_alice_claim demo_hashlib demo_sim (lit ''s3'') (lit ''alice'') 10)"
proof -
  have 1: "no_collision (sha256 demo_hashlib) (lit ''s3'') (lit ''s3'')" by code_simp
  have 2: "no_collision (\<lambda>x. ripemd160 demo_hashlib (sha256 demo_hashlib x)) (lit ''alice'') (lit ''alice'')"
    by code_simp
  from claim_correctness [OF demo_init 1 2, of 10 25] demo_init 1 2 show ?thesis by simp
qed

section \<open>Both paths at and after the timeout\<close>

text \<open>
  C5. For a simulator built from any inputs and every height at or after the timeout, the
  claim check with the constructor's secret and Alice's key returns \<open>True\<close>, and the refund
  check with Bob's key at the same height returns \<open>True\<close> as well. Neither consults the
  other path's condition: the claim succeeds at every height, and the refund succeeds
  whatever the stored secret and secret hash are.
\<close>
theorem both_paths_after_timeout:
  assumes "HTLCSimulator_init hl s a b = (Inr sim, out)" and "T \<le> h"
  shows "returned (validate_alice_claim hl sim s a h) = Inr True
       \<and> returned (validate_bob_refund hl sim b h T) = Inr True
       \<and> (\<forall>h'. returned (validate_alice_claim hl sim s a h') = Inr True)
       \<and> (\<forall>x y. returned (validate_bob_refund hl (sim\<lparr>secret := x, secret_hash := y\<rparr>) b h T)
                 = Inr True)"
proof -
  from init_fields(1) [OF assms(1)] obtain sb
    where sb: "encode s = Inr sb" "secret_hash sim = hexdigest (sha256 hl sb)" by blast
  have c: "returned (validate_alice_claim hl sim s a h') = Inr True" for h'
    by (simp add: claim_returned [OF sb(1) init_fields(2) [OF assms(1)]] sb(2))
  have r: "returned (validate_bob_refund hl sim b h T) = Inr True"
    using assms(2) by (simp add: refund_returned [OF init_fields(3) [OF assms(1)]])
  have "returned (validate_bob_refund hl (sim\<lparr>secret := x, secret_hash := y\<rparr>) b h T) = Inr True"
    for x y
    using refund_reads [of "sim\<lparr>secret := x, secret_hash := y\<rparr>" sim hl b h T] r by simp
  with c r show ?thesis by simp
qed

theorem both_paths_after_timeout_witness:
  "HTLCSimulator_init demo_hashlib (lit ''s3'') (lit ''alice'') (lit ''bob'') = (Inr demo_sim, [])
   \<and> (21::int) \<le> 25
   \<and> returned (validate_alice_claim demo_hashlib demo_sim (lit ''s3'') (lit ''alice'') 25) = Inr True
   \<and> returned (validate_bob_refund demo_hashlib demo_sim (lit ''bob'') 25 21) = Inr True"
proof -
  have h: "(21::int) \<le> 25" by simp
  from both_paths_after_timeout [OF demo_init h] demo_init show ?thesis by simp
qed

section \<open>Each path accepts its own key only\<close>

text \<open>
  C6. For a simulator whose two key hashes differ, the claim check presenting Bob's key
  returns \<open>False\<close> although the secret is the right one, and the refund check presenting
  Alice's key returns \<open>False\<close> at every height at or after the timeout; in both the line
  printed for the key-hash check reads \<open>False\<close>.
\<close>
theorem identity_isolation:
  assumes "HTLCSimulator_init hl s a b = (Inr sim, out)"
    and "alice_pubkey_hash sim \<noteq> bob_pubkey_hash sim"
  shows "returned (validate_alice_claim hl sim s b h) = Inr False
       \<and> printed (validate_alice_claim hl sim s b h) ! 7
           = lit ''Public Key Hash Match: '' @ str_of_bool False
       \<and> (T \<le> h' \<longrightarrow>
            returned (validate_bob_refund hl sim a h' T) = Inr False
          \<and> printed (validate_bob_refund hl sim a h' T) ! 8
              = lit ''Public Key Hash Match: '' @ str_of_bool False)"
proof -
  from init_fields(1) [OF assms(1)] obtain sb
    where sb: "encode s = Inr sb" "secret_hash sim = hexdigest (sha256 hl sb)" by blast
  note ah = init_fields(2) [OF assms(1)] and bh = init_fields(3) [OF assms(1)]
  have 1: "returned (validate_alice_claim hl sim s b h) = Inr False"
    using assms(2) by (simp add: claim_returned [OF sb(1) bh])
  have 2: "printed (validate_alice_claim hl sim s b h) ! 7
           = lit ''Public Key Hash Match: '' @ str_of_bool False"
    using assms(2) sb(1) bh by (simp add: validate_alice_claim_def Let_def)
  have 3: "returned (validate_bob_refund hl sim a h' T) = Inr False"
    using assms(2) by (simp add: refund_returned [OF ah])
  have 4: "printed (validate_bob_refund hl sim a h' T) ! 8
           = lit ''Public Key Hash Match: '' @ str_of_bool False"
    using assms(2) ah by (simp add: validate_bob_refund_def Let_def)
  from 1 2 3 4 show ?thesis by simp
qed

theorem identity_isolation_witness:
  "HTLCSimulator_init demo_hashlib (lit ''s3'') (lit ''alice'') (lit ''bob'') = (Inr demo_sim, [])
   \<and> alice_pubkey_hash demo_sim \<noteq> bob_pubkey_hash demo_sim
   \<and> (21::int) \<le> 25
   \<and> returned (validate_alice_claim demo_hashlib demo_sim (lit ''s3'') (lit ''bob'') 10) = Inr False
   \<and> returned (validate_bob_refund demo_hashlib demo_sim (lit ''alice'') 25 21) = Inr False"
proof -
  have d: "alice_pubkey_hash demo_sim \<noteq> bob_pubkey_hash demo_sim" by code_simp
  have h: "(21::int) \<le> 25" by simp
  from identity_isolation [OF demo_init d, where h = 10 and T = 21 and h' = 25] demo_init d h
  show ?thesis by simp
qed

section \<open>The refund path does not read the secret\<close>

text \<open>
  C7. Two simulators built with the same keys and different secrets give the same refund
  verdict, and print the same lines, for every candidate key, height and timeout.
\<close>
theorem refund_ignores_secret:
  assumes "HTLCSimulator_init hl s1 a b = (Inr sim1, out1)"
    and "HTLCSimulator_init hl s2 a b = (Inr sim2, out2)"
  shows "returned (validate_bob_refund hl sim1 p h T) = returned (validate_bob_refund hl sim2 p h T)
       \<and> printed (validate_bob_refund hl sim1 p h T) = printed (validate_bob_refund hl sim2 p h T)"
proof (rule refund_reads)
  show "bob_pubkey sim1 = bob_pubkey sim2"
    using init_fields(6) [OF assms(1)] init_fields(6) [OF assms(2)] by simp
  show "bob_pubkey_hash sim1 = bob_pubkey_hash sim2"
    using init_fields(3) [OF assms(1)] init_fields(3) [OF assms(2)] by simp
qed

theorem refund_ignores_secret_witness:
  "HTLCSimulator_init demo_hashlib (lit ''s3'') (lit ''alice'') (lit ''bob'') = (Inr demo_sim, [])
   \<and> HTLCSimulator_init demo_hashlib (lit ''zz'') (lit ''alice'') (lit ''bob'')
       = (Inr (demo_sim\<lparr>secret := lit ''zz'', secret_hash := lit ''7a7a'' @ replicate 60 48\<rparr>), [])
   \<and> returned (validate_bob_refund demo_hashlib demo_sim (lit ''bob'') 25 21)
       = returned (validate_bob_refund demo_hashlib
            (demo_sim\<lparr>secret := lit ''zz'', secret_hash := lit ''7a7a'' @ replicate 60 48\<rparr>)
            (lit ''bob'') 25 21)"
proof -
  have z: "HTLCSimulator_init demo_hashlib (lit ''zz'') (lit ''alice'') (lit ''bob'')
       = (Inr (demo_sim\<lparr>secret := lit ''zz'', secret_hash := lit ''7a7a'' @ replicate 60 48\<rparr>), [])"
    by code_simp
  from refund_ignores_secret [OF demo_init z, of "lit ''bob''" 25 21] demo_init z
  show ?thesis by simp
qed

section \<open>The presented key counts only through its HASH160\<close>

text \<open>
  C10. Two candidate keys with the same \<open>hash160\<close> get the same result from
  \<open>validate_alice_claim\<close> and from \<open>validate_bob_refund\<close>. The raw comparison with the
  stored key (\<open>pubkey_valid\<close>) is computed and printed but does not reach the value
  returned: replacing the stored key leaves the result as it is.
\<close>
theorem identity_only_through_hash160:
  assumes "hash160 hl p1 = hash160 hl p2"
  shows "returned (validate_alice_claim hl self s' p1 h) = returned (validate_alice_claim hl self s' p2 h)
       \<and> returned (validate_bob_refund hl self p1 h T) = returned (validate_bob_refund hl self p2 h T)
       \<and> returned (validate_alice_claim hl (self\<lparr>alice_pubkey := k\<rparr>) s' p1 h)
           = returned (validate_alice_claim hl self s' p1 h)
       \<and> returned (validate_bob_refund hl (self\<lparr>bob_pubkey := k\<rparr>) p1 h T)
           = returned (validate_bob_refund hl self p1 h T)"
  using assms by (simp add: validate_alice_claim_def validate_bob_refund_def Let_def split: sum.splits)

theorem identity_only_through_hash160_witness:
  "lit ''alice_public_key_xyz1'' \<noteq> lit ''alice_public_key_xyz2''
   \<and> hash160 demo_hashlib (lit ''alice_public_key_xyz1'') = hash160 demo_hashlib (lit ''alice_public_key_xyz2'')
   \<and> returned (validate_alice_claim demo_hashlib demo_sim (lit ''s3'') (lit ''alice_public_key_xyz1'') 10)
     = returned (validate_alice_claim demo_hashlib demo_sim (lit ''s3'') (lit ''alice_public_key_xyz2'') 10)
   \<and> returned (validate_bob_refund demo_hashlib demo_sim (lit ''alice_public_key_xyz1'') 25 21)
     = returned (validate_bob_refund demo_hashlib demo_sim (lit ''alice_public_key_xyz2'') 25 21)"
proof -
  have d: "lit ''alice_public_key_xyz1'' \<noteq> lit ''alice_public_key_xyz2''" by code_simp
  have e: "hash160 demo_hashlib (lit ''alice_public_key_xyz1'')
         = hash160 demo_hashlib (lit ''alice_public_key_xyz2'')" by code_simp
  from identity_only_through_hash160 [OF e, where self = demo_sim and s' = "lit ''s3''" and h = 10]
    identity_only_through_hash160 [OF e, where self = demo_sim and h = 25 and T = 21]
    d e show ?thesis by simp
qed

section \<open>The commitments\<close>

text \<open>
  C8. \<open>hash160\<close> is the two-stage digest \<open>H160(x) = RIPEMD160(SHA256(x))\<close> of the
  UTF-8 encoding of its argument, rendered in hex; the stored secret commitment is the
  single-stage \<open>H = SHA256\<close> of the encoded secret, rendered in hex, and the two key
  commitments are \<open>hash160\<close> of the keys. Equal inputs build equal simulators, and two
  texts have the same \<open>hash160\<close> exactly when their two-stage digests agree.
\<close>
theorem commitments_are_the_spec_digests:
  assumes "HTLCSimulator_init hl s a b = (Inr sim, out)"
  shows "hash160 hl x = map_sum id (\<lambda>u. hexdigest (H160_spec hl u)) (encode x)
       \<and> Inr (secret_hash sim) = map_sum id (\<lambda>u. hexdigest (H_spec hl u)) (encode s)
       \<and> Inr (alice_pubkey_hash sim) = map_sum id (\<lambda>u. hexdigest (H160_spec hl u)) (encode a)
       \<and> Inr (bob_pubkey_hash sim) = map_sum id (\<lambda>u. hexdigest (H160_spec hl u)) (encode b)
       \<and> (\<forall>sim' out'. HTLCSimulator_init hl s a b = (Inr sim', out') \<longrightarrow> sim' = sim)
       \<and> (\<forall>y u v. encode x = Inr u \<and> encode y = Inr v \<longrightarrow>
            (hash160 hl x = hash160 hl y) = (H160_spec hl u = H160_spec hl v))"
proof -
  have q: "(hash160 hl x = hash160 hl y) = (H160_spec hl u = H160_spec hl v)"
    if "encode x = Inr u \<and> encode y = Inr v" for y u v
    using that by (simp add: hash160_eq_iff [of x u y v hl] H160_spec_def)
  have h: "hash160 hl y = map_sum id (\<lambda>u. hexdigest (H160_spec hl u)) (encode y)" for y
    by (simp add: hash160_def H160_spec_def split: sum.splits)
  from init_fields(1) [OF assms] obtain sb
    where sb: "encode s = Inr sb" "secret_hash sim = hexdigest (sha256 hl sb)" by blast
  then have 1: "Inr (secret_hash sim) = map_sum id (\<lambda>u. hexdigest (H_spec hl u)) (encode s)"
    by (simp add: H_spec_def)
  have 2: "Inr (alice_pubkey_hash sim) = map_sum id (\<lambda>u. hexdigest (H160_spec hl u)) (encode a)"
    using init_fields(2) [OF assms] h [of a] by simp
  have 3: "Inr (bob_pubkey_hash sim) = map_sum id (\<lambda>u. hexdigest (H160_spec hl u)) (encode b)"
    using init_fields(3) [OF assms] h [of b] by simp
  have 4: "\<forall>sim' out'. HTLCSimulator_init hl s a b = (Inr sim', out') \<longrightarrow> sim' = sim"
    using assms by simp
  have 5: "\<forall>y u v. encode x = Inr u \<and> encode y = Inr v \<longrightarrow>
            (hash160 hl x = hash160 hl y) = (H160_spec hl u = H160_spec hl v)"
    using q by blast
  from h [of x] 1 2 3 4 5 show ?thesis by blast
qed

theorem commitments_are_the_spec_digests_witness:
  "HTLCSimulator_init demo_hashlib (lit ''s3'') (lit ''alice'') (lit ''bob'') = (Inr demo_sim, [])
   \<and> Inr (secret_hash demo_sim)
       = map_sum id (\<lambda>u. hexdigest (H_spec demo_hashlib u)) (encode (lit ''s3''))
   \<and> Inr (alice_pubkey_hash demo_sim)
       = map_sum id (\<lambda>u. hexdigest (H160_spec demo_hashlib u)) (encode (lit ''alice''))"
  using commitments_are_the_spec_digests [OF demo_init] demo_init by simp

section \<open>Effects of construction and evaluation\<close>

text \<open>
  C9, as stated, fails: the evaluations write text. A claim check and a refund check on
  the example simulator both print; the refund check starts with its three banner lines.
\<close>
theorem evaluator_prints_example:
  "printed (validate_alice_claim demo_hashlib demo_sim (lit ''s3'') (lit ''alice'') 10) \<noteq> []
   \<and> take 3 (printed (validate_bob_refund demo_hashlib demo_sim (lit ''bob'') 25 21))
       = [10 # replicate 60 61, lit ''VALIDATING BOB'S REFUND'', replicate 60 61]"
  by (simp add: validate_alice_claim_def validate_bob_refund_def Let_def rule60_def
      split: sum.splits)

text \<open>
  C9, amended. The constructor prints nothing, and neither evaluation changes any field
  of the simulator, whatever the arguments and also when an exception is raised; both
  evaluations do print at least one line.
\<close>
theorem evaluation_frame:
  "snd (HTLCSimulator_init hl s a b) = []
   \<and> self_after (validate_alice_claim hl self s' p h) = self
   \<and> self_after (validate_bob_refund hl self p h T) = self
   \<and> printed (validate_alice_claim hl self s' p h) \<noteq> []
   \<and> printed (validate_bob_refund hl self p h T) \<noteq> []"
  by (simp add: HTLCSimulator_init_def validate_alice_claim_def validate_bob_refund_def Let_def
      split: sum.splits)

section \<open>What the constructor accepts\<close>

text \<open>
  C3, as stated, fails: the constructor builds a simulator from three empty strings, and
  a negative timeout, which is an argument of \<open>validate_bob_refund\<close> and not of the
  constructor, is accepted there without complaint.
\<close>
theorem empty_inputs_accepted:
  "HTLCSimulator_init demo_hashlib [] [] []
     = (Inr \<lparr> secret = [], secret_hash = replicate 64 48, alice_pubkey = [], bob_pubkey = [],
              alice_pubkey_hash = replicate 40 48, bob_pubkey_hash = replicate 40 48,
              current_block = 0 \<rparr>, [])
   \<and> returned (validate_bob_refund demo_hashlib demo_sim (lit ''bob'') 0 (- 5)) = Inr True"
  by code_simp

lemma error_unique: "e = UnicodeEncodeError"
  by (cases e) simp

text \<open>
  C3, amended. The constructor validates nothing and takes no timeout: it succeeds,
  printing nothing, for every secret and keys that UTF-8 can encode, the empty string
  included, and it raises \<open>UnicodeEncodeError\<close> (never an \<open>InvalidInput\<close>) otherwise.
\<close>
theorem construction_checks_nothing_but_encoding:
  "(encodable s \<and> encodable a \<and> encodable b \<longrightarrow>
      (\<exists>sim. HTLCSimulator_init hl s a b = (Inr sim, [])))
   \<and> (\<not> (encodable s \<and> encodable a \<and> encodable b) \<longrightarrow>
      HTLCSimulator_init hl s a b = (Inl UnicodeEncodeError, []))"
proof (intro conjI impI)
  assume "encodable s \<and> encodable a \<and> encodable b"
  then obtain sb ah bh where "encode s = Inr sb" "hash160 hl a = Inr ah" "hash160 hl b = Inr bh"
    using encode_ok [of s] hash160_ok [of hl a] hash160_ok [of hl b] by blast
  then show "\<exists>sim. HTLCSimulator_init hl s a b = (Inr sim, [])"
    by (simp add: HTLCSimulator_init_def)
next
  assume "\<not> (encodable s \<and> encodable a \<and> encodable b)"
  then have "\<exists>e. HTLCSimulator_init hl s a b = (Inl e, [])"
    by (auto simp: HTLCSimulator_init_def encode_error hash160_error split: sum.splits)
  then obtain e where "HTLCSimulator_init hl s a b = (Inl e, [])" ..
  then show "HTLCSimulator_init hl s a b = (Inl UnicodeEncodeError, [])"
    using error_unique [of e] by simp
qed

theorem construction_checks_nothing_but_encoding_witness:
  "encodable [] \<and> (\<exists>sim. HTLCSimulator_init demo_hashlib [] [] [] = (Inr sim, []))
   \<and> \<not> encodable [0xD800]
   \<and> HTLCSimulator_init demo_hashlib (lit ''s3'') [0xD800] (lit ''bob'') = (Inl UnicodeEncodeError, [])"
proof -
  have e: "encodable []" and n: "\<not> encodable [0xD800]" by (simp_all add: encodable_def)
  from construction_checks_nothing_but_encoding [of "[]" "[]" "[]" demo_hashlib]
    construction_checks_nothing_but_encoding [of "lit ''s3''" "[0xD800]" "lit ''bob''" demo_hashlib]
    e n show ?thesis by simp
qed

section \<open>What an evaluation returns and what it prints\<close>

text \<open>
  C4, as stated, fails: the value returned is the bare boolean. A claim with a wrong
  secret and the right key and a claim with the right secret and a wrong key return the
  same \<open>False\<close>; which sub-check failed appears only in the printed lines.
\<close>
theorem returned_value_is_a_bare_bool:
  "returned (validate_alice_claim demo_hashlib demo_sim (lit ''zz'') (lit ''alice'') 10) = Inr False
   \<and> returned (validate_alice_claim demo_hashlib demo_sim (lit ''s3'') (lit ''bob'') 10) = Inr False
   \<and> printed (validate_alice_claim demo_hashlib demo_sim (lit ''zz'') (lit ''alice'') 10) ! 3
       = lit ''Secret Hash Match: False''
   \<and> printed (validate_alice_claim demo_hashlib demo_sim (lit ''zz'') (lit ''alice'') 10) ! 7
       = lit ''Public Key Hash Match: True''
   \<and> printed (validate_alice_claim demo_hashlib demo_sim (lit ''s3'') (lit ''bob'') 10) ! 3
       = lit ''Secret Hash Match: True''
   \<and> printed (validate_alice_claim demo_hashlib demo_sim (lit ''s3'') (lit ''bob'') 10) ! 7
       = lit ''Public Key Hash Match: False''"
  by code_simp

text \<open>
  C4, amended. When the candidate texts encode, each evaluation returns only the
  conjunction of its two sub-checks, and prints both sub-check results in order (secret
  match then key-hash match for a claim, timeout then key-hash match for a refund),
  whether or not the first one failed.
\<close>
theorem subchecks_printed_conjunction_returned:
  assumes "encode s' = Inr pb" and "hash160 hl p = Inr ph"
  shows "returned (validate_alice_claim hl self s' p h)
           = Inr (hexdigest (sha256 hl pb) = secret_hash self \<and> ph = alice_pubkey_hash self)
       \<and> printed (validate_alice_claim hl self s' p h) ! 3
           = lit ''Secret Hash Match: '' @ str_of_bool (hexdigest (sha256 hl pb) = secret_hash self)
       \<and> printed (validate_alice_claim hl self s' p h) ! 7
           = lit ''Public Key Hash Match: '' @ str_of_bool (ph = alice_pubkey_hash self)
       \<and> returned (validate_bob_refund hl self p h T)
           = Inr (T \<le> h \<and> ph = bob_pubkey_hash self)
       \<and> printed (validate_bob_refund hl self p h T) ! 3
           = lit ''Timeout Check: '' @ str_of_bool (T \<le> h)
       \<and> printed (validate_bob_refund hl self p h T) ! 8
           = lit ''Public Key Hash Match: '' @ str_of_bool (ph = bob_pubkey_hash self)"
  using assms by (simp add: validate_alice_claim_def validate_bob_refund_def Let_def)

theorem subchecks_printed_conjunction_returned_witness:
  "encode (lit ''zz'') = Inr [0x7a, 0x7a]
   \<and> hash160 demo_hashlib (lit ''alice'') = Inr (lit ''616c696365'' @ replicate 30 48)
   \<and> returned (validate_alice_claim demo_hashlib demo_sim (lit ''zz'') (lit ''alice'') 10) = Inr False
   \<and> printed (validate_alice_claim demo_hashlib demo_sim (lit ''zz'') (lit ''alice'') 10) ! 3
       = lit ''Secret Hash Match: '' @ str_of_bool False
   \<and> printed (validate_alice_claim demo_hashlib demo_sim (lit ''zz'') (lit ''alice'') 10) ! 7
       = lit ''Public Key Hash Match: '' @ str_of_bool True
   \<and> returned (validate_bob_refund demo_hashlib demo_sim (lit ''alice'') 25 21) = Inr False
   \<and> printed (validate_bob_refund demo_hashlib demo_sim (lit ''alice'') 25 21) ! 3
       = lit ''Timeout Check: '' @ str_of_bool True
   \<and> printed (validate_bob_refund demo_hashlib demo_sim (lit ''alice'') 25 21) ! 8
       = lit ''Public Key Hash Match: '' @ str_of_bool False"
proof -
  have e: "encode (lit ''zz'') = Inr [0x7a, 0x7a]" by code_simp
  have k: "hash160 demo_hashlib (lit ''alice'') = Inr (lit ''616c696365'' @ replicate 30 48)"
    by code_simp
  have A: "(hexdigest (sha256 demo_hashlib [0x7a, 0x7a]) = secret_hash demo_sim) = False"
    by code_simp
  have B: "(lit ''616c696365'' @ replicate 30 48 = alice_pubkey_hash demo_sim) = True"
    by code_simp
  have C: "(lit ''616c696365'' @ replicate 30 48 = bob_pubkey_hash demo_sim) = False"
    by code_simp
  have D: "((21::int) \<le> 25) = True" by simp
  from subchecks_printed_conjunction_returned [OF e k, where self = demo_sim and h = 10]
    subchecks_printed_conjunction_returned [OF e k, where self = demo_sim and h = 25 and T = 21]
    e k show ?thesis unfolding A B C D by simp
qed

end
